theory Spec2Isabelle
  imports Main
begin

section \<open>Python strings\<close>

text \<open>
  A Python \<^verbatim>\<open>str\<close> is a sequence of Unicode code points, so a character is modelled
  by its code point and a string by a list of code points. \<open>str\<close> turns an (ASCII)
  literal into such a string; the bullet \<^verbatim>\<open>U+2022\<close> of the concept pattern is the
  code point 8226.
\<close>

type_synonym pychar = nat
type_synonym pystr = "pychar list"

definition str :: "string \<Rightarrow> pystr" where
  "str s = map of_char s"

text \<open>
  \<^verbatim>\<open>str.isspace\<close> on one character, which is also the class \<^verbatim>\<open>\s\<close> of \<^verbatim>\<open>re\<close> on
  \<^verbatim>\<open>str\<close> patterns: the ASCII white space, the separators \<^verbatim>\<open>0x1c..0x1f\<close>, NEL, the
  no-break space and the Unicode space separators.
\<close>

definition isspace :: "pychar \<Rightarrow> bool" where
  "isspace c \<longleftrightarrow>
     (9 \<le> c \<and> c \<le> 13) \<or> (28 \<le> c \<and> c \<le> 32) \<or> c = 133 \<or> c = 160 \<or> c = 5760 \<or>
     (8192 \<le> c \<and> c \<le> 8202) \<or> c = 8232 \<or> c = 8233 \<or> c = 8239 \<or> c = 8287 \<or> c = 12288"

text \<open>
  The class \<^verbatim>\<open>\d\<close> of \<^verbatim>\<open>re\<close> on \<^verbatim>\<open>str\<close> patterns: the decimal digits of Unicode
  (category Nd, Unicode 14). Every block holds the ten digits 0 to 9 and is given by its
  first code point; the mathematical digits \<^verbatim>\<open>U+1D7CE..U+1D7FF\<close> are five blocks in a row.
\<close>

definition digit_blocks :: "pychar list" where
  "digit_blocks =
     [48, 1632, 1776, 1984, 2406, 2534, 2662, 2790, 2918, 3046, 3174, 3302, 3430, 3558,
      3664, 3792, 3872, 4160, 4240, 6112, 6160, 6470, 6608, 6784, 6800, 6992, 7088, 7232,
      7248, 42528, 43216, 43264, 43472, 43504, 43600, 44016, 65296, 66720, 68912, 69734,
      69872, 69942, 70096, 70384, 70736, 70864, 71248, 71360, 71472, 71904, 72016, 72784,
      73040, 73120, 92768, 92864, 93008, 120782, 120792, 120802, 120812, 120822, 123200,
      123632, 125264, 130032]"

definition isdigit :: "pychar \<Rightarrow> bool" where
  "isdigit c \<longleftrightarrow> list_ex (\<lambda>b. b \<le> c \<and> c < b + 10) digit_blocks"

text \<open>\<^verbatim>\<open>s.strip()\<close>: leading and trailing white space removed.\<close>

definition strip :: "pystr \<Rightarrow> pystr" where
  "strip s = rev (dropWhile isspace (rev (dropWhile isspace s)))"

text \<open>\<^verbatim>\<open>sep.join(parts)\<close>.\<close>

fun join :: "pystr \<Rightarrow> pystr list \<Rightarrow> pystr" where
  "join sep [] = []"
| "join sep [x] = x"
| "join sep (x # y # ys) = x @ sep @ join sep (y # ys)"

text \<open>
  A literal character of a pattern compiled with \<^verbatim>\<open>re.IGNORECASE\<close>. The pattern
  characters of this program are ASCII; an ASCII letter matches its two cases, and
  \<^verbatim>\<open>i\<close>, \<^verbatim>\<open>s\<close> and \<^verbatim>\<open>k\<close> also match the four non-ASCII letters that fold to them
  (\<^verbatim>\<open>U+0130\<close>, \<^verbatim>\<open>U+0131\<close>, \<^verbatim>\<open>U+017F\<close>, \<^verbatim>\<open>U+212A\<close>). Any other character matches
  itself only.
\<close>

definition lower_ascii :: "pychar \<Rightarrow> pychar" where
  "lower_ascii c = (if 65 \<le> c \<and> c \<le> 90 then c + 32 else c)"

definition ignorecase :: "pychar \<Rightarrow> pychar \<Rightarrow> bool" where
  "ignorecase c x \<longleftrightarrow>
     (let lc = lower_ascii c in
      x = lc \<or> (97 \<le> lc \<and> lc \<le> 122 \<and> x + 32 = lc) \<or>
      (lc = 105 \<and> (x = 304 \<or> x = 305)) \<or> (lc = 115 \<and> x = 383) \<or> (lc = 107 \<and> x = 8490))"

section \<open>The backtracking matcher of \<^verbatim>\<open>re\<close>\<close>

text \<open>
  The three patterns of \<^verbatim>\<open>_parse_llm_output\<close> use literals, character classes, greedy
  and lazy repetition of a class, the anchors, alternation and one capturing group. A
  pattern is a term of \<open>re\<close>, already compiled under its flags: \<^verbatim>\<open>.\<close> is the class of
  all characters under \<^verbatim>\<open>re.DOTALL\<close> and of all characters but the newline otherwise,
  and under \<^verbatim>\<open>re.MULTILINE\<close> the anchor \<^verbatim>\<open>^\<close> holds at the start of the text and after
  each newline, \<^verbatim>\<open>$\<close> at the end of the text and before each newline.
\<close>

datatype re =
    Eps
  | Cls "pychar \<Rightarrow> bool"
  | Star "pychar \<Rightarrow> bool"
  | LazyStar "pychar \<Rightarrow> bool"
  | Bol
  | Eol
  | Cat re re
  | Or re re
  | Group re

text \<open>
  A cursor is a place in the text: the character before it (none at the start), its
  index, and the text from it on. The span of group 1 is a pair of indices.
\<close>

type_synonym cursor = "pychar option \<times> nat \<times> pystr"
type_synonym span = "nat \<times> nat"

fun pos :: "cursor \<Rightarrow> nat" where
  "pos (p, i, cs) = i"

fun rest :: "cursor \<Rightarrow> pystr" where
  "rest (p, i, cs) = cs"

text \<open>
  Matching is by backtracking with a continuation \<open>k\<close> for what follows in the pattern:
  the first alternative that lets the continuation succeed wins. A greedy repetition
  tries the longest run first and gives characters back one at a time; a lazy one tries
  the shortest first.
\<close>

fun greedy :: "(pychar \<Rightarrow> bool) \<Rightarrow> cursor \<Rightarrow> (cursor \<Rightarrow> 'a option) \<Rightarrow> 'a option" where
  "greedy P (p, i, []) k = k (p, i, [])"
| "greedy P (p, i, c # cs) k =
     (if P c
      then (case greedy P (Some c, Suc i, cs) k of
              Some r \<Rightarrow> Some r
            | None \<Rightarrow> k (p, i, c # cs))
      else k (p, i, c # cs))"

fun lazy :: "(pychar \<Rightarrow> bool) \<Rightarrow> cursor \<Rightarrow> (cursor \<Rightarrow> 'a option) \<Rightarrow> 'a option" where
  "lazy P (p, i, []) k = k (p, i, [])"
| "lazy P (p, i, c # cs) k =
     (case k (p, i, c # cs) of
        Some r \<Rightarrow> Some r
      | None \<Rightarrow> if P c then lazy P (Some c, Suc i, cs) k else None)"

fun bt :: "re \<Rightarrow> cursor \<Rightarrow> span option \<Rightarrow> (cursor \<Rightarrow> span option \<Rightarrow> 'a option) \<Rightarrow> 'a option" where
  "bt Eps cur g k = k cur g"
| "bt (Cls P) (p, i, []) g k = None"
| "bt (Cls P) (p, i, c # cs) g k = (if P c then k (Some c, Suc i, cs) g else None)"
| "bt (Star P) cur g k = greedy P cur (\<lambda>cur'. k cur' g)"
| "bt (LazyStar P) cur g k = lazy P cur (\<lambda>cur'. k cur' g)"
| "bt Bol (p, i, cs) g k = (if p = None \<or> p = Some 10 then k (p, i, cs) g else None)"
| "bt Eol (p, i, []) g k = k (p, i, []) g"
| "bt Eol (p, i, c # cs) g k = (if c = 10 then k (p, i, c # cs) g else None)"
| "bt (Cat a b) cur g k = bt a cur g (\<lambda>cur' g'. bt b cur' g' k)"
| "bt (Or a b) cur g k =
     (case bt a cur g k of Some r \<Rightarrow> Some r | None \<Rightarrow> bt b cur g k)"
| "bt (Group a) cur g k = bt a cur g (\<lambda>cur' g'. k cur' (Some (pos cur, pos cur')))"

text \<open>A match object: where the match ends, and the span of group 1 if it took part.\<close>

type_synonym match = "cursor \<times> span option"

definition match_at :: "re \<Rightarrow> cursor \<Rightarrow> match option" where
  "match_at r cur = bt r cur None (\<lambda>cur' g. Some (cur', g))"

text \<open>\<^verbatim>\<open>re.search\<close>: the match at the leftmost place that has one.\<close>

fun search_from :: "re \<Rightarrow> cursor \<Rightarrow> match option" where
  "search_from r (p, i, []) = match_at r (p, i, [])"
| "search_from r (p, i, c # cs) =
     (case match_at r (p, i, c # cs) of
        Some m \<Rightarrow> Some m
      | None \<Rightarrow> search_from r (Some c, Suc i, cs))"

definition re_search :: "re \<Rightarrow> pystr \<Rightarrow> match option" where
  "re_search r s = search_from r (None, 0, s)"

text \<open>
  \<^verbatim>\<open>m.group(1)\<close> on the text \<open>s\<close> that was searched: the captured slice, or Python's
  \<^verbatim>\<open>None\<close> when the group took no part in the match.
\<close>

fun group1 :: "pystr \<Rightarrow> match \<Rightarrow> pystr option" where
  "group1 s (cur, None) = None"
| "group1 s (cur, Some (b, e)) = Some (take (e - b) (drop b s))"

text \<open>
  \<^verbatim>\<open>re.findall\<close> for a pattern with one group: the group of every match, scanning from
  left to right, each search starting where the last match ended. The scan visits every
  place in turn and \<open>lo\<close> is the first place at which a match may start again; a group
  that took no part gives the empty string. (After an empty match the scan moves on by
  one character; the concept pattern consumes its bullet, so its matches are never
  empty.)
\<close>

fun findall_from :: "re \<Rightarrow> pystr \<Rightarrow> nat \<Rightarrow> cursor \<Rightarrow> pystr list" where
  "findall_from r s lo (p, i, []) =
     (case (if lo \<le> i then match_at r (p, i, []) else None) of
        Some m \<Rightarrow> [case group1 s m of None \<Rightarrow> [] | Some t \<Rightarrow> t]
      | None \<Rightarrow> [])"
| "findall_from r s lo (p, i, c # cs) =
     (case (if lo \<le> i then match_at r (p, i, c # cs) else None) of
        Some m \<Rightarrow>
          (case group1 s m of None \<Rightarrow> [] | Some t \<Rightarrow> t) #
          findall_from r s (if pos (fst m) = i then Suc i else pos (fst m)) (Some c, Suc i, cs)
      | None \<Rightarrow> findall_from r s lo (Some c, Suc i, cs))"

definition re_findall :: "re \<Rightarrow> pystr \<Rightarrow> pystr list" where
  "re_findall r s = findall_from r s 0 (None, 0, s)"

text \<open>A literal under \<^verbatim>\<open>re.IGNORECASE\<close>, and \<^verbatim>\<open>X+\<close> for a class \<open>X\<close>.\<close>

fun lit_ci :: "pystr \<Rightarrow> re" where
  "lit_ci [] = Eps"
| "lit_ci (c # cs) = Cat (Cls (ignorecase c)) (lit_ci cs)"

definition plus :: "(pychar \<Rightarrow> bool) \<Rightarrow> re" where
  "plus P = Cat (Cls P) (Star P)"

text \<open>
  A pattern sets group 1 on every successful match when the group lies on every path
  through it.
\<close>

fun sets_group :: "re \<Rightarrow> bool" where
  "sets_group (Group a) = True"
| "sets_group (Cat a b) = (sets_group a \<or> sets_group b)"
| "sets_group (Or a b) = (sets_group a \<and> sets_group b)"
| "sets_group r = False"

section \<open>The output parser\<close>

text \<open>
  The three patterns of \<^verbatim>\<open>_parse_llm_output\<close>:
  \<^verbatim>\<open>FINAL SUMMARY:(.*?)KEY CONCEPTS:\<close> and \<^verbatim>\<open>KEY CONCEPTS:(.*)\<close>, both under
  \<^verbatim>\<open>re.IGNORECASE | re.DOTALL\<close>, and \<^verbatim>\<open>^\s*(?:[-*\<bullet>]|\d+\.)\s*(.*?)\s*$\<close> under
  \<^verbatim>\<open>re.MULTILINE\<close>.
\<close>

definition summary_re :: re where
  "summary_re =
     Cat (lit_ci (str ''FINAL SUMMARY:''))
       (Cat (Group (LazyStar (\<lambda>c. True))) (lit_ci (str ''KEY CONCEPTS:'')))"

definition concepts_re :: re where
  "concepts_re = Cat (lit_ci (str ''KEY CONCEPTS:'')) (Group (Star (\<lambda>c. True)))"

definition bullet :: "pychar \<Rightarrow> bool" where
  "bullet c \<longleftrightarrow> c = 45 \<or> c = 42 \<or> c = 8226"

definition concept_line_re :: re where
  "concept_line_re =
     Cat Bol (Cat (Star isspace)
       (Cat (Or (Cls bullet) (Cat (plus isdigit) (Cls (\<lambda>c. c = 46))))
         (Cat (Star isspace)
           (Cat (Group (LazyStar (\<lambda>c. c \<noteq> 10))) (Cat (Star isspace) Eol)))))"

text \<open>
  An instance of a subclass of \<^verbatim>\<open>Exception\<close>, given by the name of its class,
  \<^verbatim>\<open>type(e).__name__\<close>. The parser raises only the \<^verbatim>\<open>AttributeError\<close> of
  \<^verbatim>\<open>None.strip()\<close>. Whether an exception raised by the chain is such an instance at
  all, and what \<^verbatim>\<open>str\<close> does on it, is told by the type \<open>raised\<close> of the pipeline.
\<close>

datatype exn = Exn (type_name: pystr)

record summary_result =
  summary :: pystr
  key_concepts :: "pystr list"

text \<open>
  The body of the \<^verbatim>\<open>try\<close> block. \<^verbatim>\<open>group(1)\<close> of a match whose group took no part is
  \<^verbatim>\<open>None\<close>, and \<^verbatim>\<open>None.strip()\<close> raises \<^verbatim>\<open>AttributeError\<close>.
\<close>

definition parse_try :: "pystr \<Rightarrow> exn + summary_result" where
  "parse_try llm_output =
     (let summary_match = re_search summary_re llm_output;
          concepts_match = re_search concepts_re llm_output
      in case (summary_match, concepts_match) of
           (Some sm, Some cm) \<Rightarrow>
             (case (group1 llm_output sm, group1 llm_output cm) of
                (Some g, Some h) \<Rightarrow>
                  (let concepts_text = strip h;
                       raw_concepts = re_findall concept_line_re concepts_text
                   in Inr \<lparr>summary = strip g,
                           key_concepts = map strip (filter (\<lambda>concept. strip concept \<noteq> []) raw_concepts)\<rparr>)
              | _ \<Rightarrow> Inl (Exn (str ''AttributeError'')))
         | _ \<Rightarrow> Inr \<lparr>summary = llm_output, key_concepts = []\<rparr>)"

text \<open>
  \<^verbatim>\<open>_parse_llm_output\<close>: the \<^verbatim>\<open>except Exception\<close> branch returns the raw output and no
  concepts, whatever was raised.
\<close>

definition parse_except :: "pystr \<Rightarrow> exn \<Rightarrow> summary_result" where
  "parse_except llm_output e = \<lparr>summary = llm_output, key_concepts = []\<rparr>"

definition parse_llm_output :: "pystr \<Rightarrow> summary_result" where
  "parse_llm_output llm_output =
     (case parse_try llm_output of
        Inl e \<Rightarrow> parse_except llm_output e
      | Inr r \<Rightarrow> r)"

text \<open>
  What the specification calls a marker being present: the marker occurs somewhere in
  the text, letter case ignored. \<open>after_marker\<close> is the text that follows its first
  occurrence.
\<close>

fun ci_prefix :: "pystr \<Rightarrow> pystr \<Rightarrow> bool" where
  "ci_prefix [] t = True"
| "ci_prefix (c # cs) [] = False"
| "ci_prefix (c # cs) (x # xs) = (ignorecase c x \<and> ci_prefix cs xs)"

fun marker_in :: "pystr \<Rightarrow> pystr \<Rightarrow> bool" where
  "marker_in w [] = ci_prefix w []"
| "marker_in w (x # xs) = (ci_prefix w (x # xs) \<or> marker_in w xs)"

fun after_marker :: "pystr \<Rightarrow> pystr \<Rightarrow> pystr option" where
  "after_marker w [] = (if ci_prefix w [] then Some [] else None)"
| "after_marker w (x # xs) =
     (if ci_prefix w (x # xs) then Some (drop (length w) (x # xs)) else after_marker w xs)"

text \<open>
  The key concepts as the specification words them: of the lines after the
  \<^verbatim>\<open>KEY CONCEPTS:\<close> marker, those that begin with a bullet or with digits and a dot,
  the marker and the white space around the rest trimmed, blank results dropped, in
  their order. This definition follows the specification, not the code.
\<close>

fun split_lines :: "pystr \<Rightarrow> pystr list" where
  "split_lines [] = [[]]"
| "split_lines (c # cs) =
     (if c = 10 then [] # split_lines cs
      else (case split_lines cs of l # ls \<Rightarrow> (c # l) # ls | [] \<Rightarrow> [[c]]))"

definition after_line_marker :: "pystr \<Rightarrow> pystr option" where
  "after_line_marker l =
     (case dropWhile isspace l of
        [] \<Rightarrow> None
      | c # cs \<Rightarrow>
          if bullet c then Some cs
          else if isdigit c then
            (case dropWhile isdigit cs of
               d # ds \<Rightarrow> if d = 46 then Some ds else None
             | [] \<Rightarrow> None)
          else None)"

definition spec_key_concepts :: "pystr \<Rightarrow> pystr list" where
  "spec_key_concepts raw =
     (case after_marker (str ''KEY CONCEPTS:'') raw of
        None \<Rightarrow> []
      | Some t \<Rightarrow>
          filter (\<lambda>concept. concept \<noteq> [])
            (map strip (List.map_filter after_line_marker (split_lines t))))"

section \<open>Article data and the prepared text\<close>

text \<open>
  \<^verbatim>\<open>article_data\<close> is a dictionary. The summarizer reads the keys \<^verbatim>\<open>title\<close>,
  \<^verbatim>\<open>abstract\<close> and \<^verbatim>\<open>full_text\<close>, whose values are strings or \<^verbatim>\<open>None\<close> (the
  extractors store strings). \<open>get\<close> is \<^verbatim>\<open>dict.get\<close>, \<open>truthy\<close> the truth value
  Python gives a value in a condition, \<open>format\<close> its rendering inside an f-string.
\<close>

datatype pyval = PNone | PStr pystr

type_synonym pydict = "(string \<times> pyval) list"

definition get :: "pydict \<Rightarrow> string \<Rightarrow> pyval" where
  "get d k = (case map_of d k of None \<Rightarrow> PNone | Some v \<Rightarrow> v)"

definition get_default :: "pydict \<Rightarrow> string \<Rightarrow> pyval \<Rightarrow> pyval" where
  "get_default d k v0 = (case map_of d k of None \<Rightarrow> v0 | Some v \<Rightarrow> v)"

fun truthy :: "pyval \<Rightarrow> bool" where
  "truthy PNone = False"
| "truthy (PStr s) = (s \<noteq> [])"

fun format :: "pyval \<Rightarrow> pystr" where
  "format PNone = str ''None''"
| "format (PStr s) = s"

text \<open>\<^verbatim>\<open>_prepare_input_text\<close>: the parts are appended in turn, then joined.\<close>

definition prepare_input_text :: "pydict \<Rightarrow> pystr" where
  "prepare_input_text article_data =
     (let text_parts0 = [];
          text_parts1 =
            (if truthy (get article_data ''title'')
             then text_parts0 @ [str ''Title: '' @ format (get article_data ''title'')]
             else text_parts0);
          text_parts2 =
            (if truthy (get article_data ''abstract'')
             then text_parts1 @ [str ''Abstract: '' @ format (get article_data ''abstract'')]
             else text_parts1);
          full_text = get article_data ''full_text'';
          text_parts3 =
            (if truthy full_text
             then text_parts2 @ [str ''Full Text:\<newline>'' @ format full_text]
             else text_parts2)
      in join (str ''\<newline>\<newline>'') text_parts3)"

text \<open>
  The prepared text as the specification words it: the present fields themselves, in the
  order title, abstract, full text, with a blank line between them and nothing else.
  This definition follows the specification, not the code.
\<close>

definition spec_prepared_text :: "pydict \<Rightarrow> pystr" where
  "spec_prepared_text article_data =
     join (str ''\<newline>\<newline>'')
       (map format (filter truthy
          [get article_data ''title'', get article_data ''abstract'',
           get article_data ''full_text'']))"

text \<open>The label that \<^verbatim>\<open>_prepare_input_text\<close> puts before each field, with the field's key.\<close>

definition labelled_fields :: "(pystr \<times> string) list" where
  "labelled_fields =
     [(str ''Title: '', ''title''), (str ''Abstract: '', ''abstract''),
      (str ''Full Text:\<newline>'', ''full_text'')]"

section \<open>The pipeline\<close>

text \<open>
  \<^verbatim>\<open>summarize\<close> uses two objects built in \<^verbatim>\<open>__init__\<close> from the langchain library:
  the text splitter and the map-reduce chain, which calls the language model. Both are
  parameters here. \<open>split_text\<close> is \<^verbatim>\<open>text_splitter.split_text\<close>. \<open>chain\<close> is
  \<^verbatim>\<open>chain.invoke\<close> on the input documents: it raises (\<open>Inl\<close>) or returns a dictionary
  (\<open>Inr\<close>), of which \<^verbatim>\<open>output_text\<close> is read.

  What the chain raises is any exception object, and \<^verbatim>\<open>except Exception\<close> does not
  catch all of them. \<open>Caught e s\<close> is an instance of \<^verbatim>\<open>Exception\<close>, which the clause
  catches; the handler first builds its log message with the f-string \<^verbatim>\<open>{e}\<close>, that is
  with \<^verbatim>\<open>str(e)\<close>, which returns (\<open>s = None\<close>) or raises in turn (\<open>s = Some e'\<close>), and
  an exception raised inside the handler leaves \<^verbatim>\<open>summarize\<close>. \<open>Passes n\<close> is an
  instance of a class named \<open>n\<close> that derives from \<^verbatim>\<open>BaseException\<close> but not from
  \<^verbatim>\<open>Exception\<close>, such as \<^verbatim>\<open>KeyboardInterrupt\<close>, \<^verbatim>\<open>SystemExit\<close> and
  \<^verbatim>\<open>GeneratorExit\<close>: the clause lets it through. The calls to \<^verbatim>\<open>logging\<close> return.
\<close>

datatype raised =
    Caught exn "raised option"
  | Passes pystr

record document =
  page_content :: pystr

text \<open>
  A call of \<^verbatim>\<open>summarize\<close> ends at one of its five \<^verbatim>\<open>return\<close> statements, with the
  dictionary returned there, or with an exception that reaches the caller. A run records
  how the call ended and the calls made to the chain.
\<close>

datatype exit =
    Insufficient_data
  | Empty_text
  | Empty_output
  | Chain_exception
  | Parsed

datatype outcome =
    Returns exit summary_result
  | Raises raised

record run =
  outcome :: outcome
  chain_calls :: "document list list"

definition summarize_run ::
  "(document list \<Rightarrow> raised + pydict) \<Rightarrow> (pystr \<Rightarrow> pystr list) \<Rightarrow> pydict \<Rightarrow> run" where
  "summarize_run chain split_text article_data =
     (if article_data = [] \<or> \<not> truthy (get article_data ''abstract'') then
        \<lparr>outcome = Returns Insufficient_data
           \<lparr>summary = str ''Error: Insufficient article data provided for summarization.'',
            key_concepts = []\<rparr>,
         chain_calls = []\<rparr>
      else
        let input_text = prepare_input_text article_data in
        if strip input_text = [] then
          \<lparr>outcome = Returns Empty_text
             \<lparr>summary = str ''Error: No text content available for summarization.'',
              key_concepts = []\<rparr>,
           chain_calls = []\<rparr>
        else
          let texts = split_text input_text;
              docs = map (\<lambda>t. \<lparr>page_content = t\<rparr>) texts
          in case chain docs of
               Inl (Passes n) \<Rightarrow> \<lparr>outcome = Raises (Passes n), chain_calls = [docs]\<rparr>
             | Inl (Caught e (Some e')) \<Rightarrow> \<lparr>outcome = Raises e', chain_calls = [docs]\<rparr>
             | Inl (Caught e None) \<Rightarrow>
                 \<lparr>outcome = Returns Chain_exception
                    \<lparr>summary = str ''Error: Summarization failed due to an internal error (''
                                 @ type_name e @ str '').'',
                     key_concepts = []\<rparr>,
                  chain_calls = [docs]\<rparr>
             | Inr result \<Rightarrow>
                 (case get_default result ''output_text'' (PStr []) of
                    PStr llm_output_text \<Rightarrow>
                      if llm_output_text = [] then
                        \<lparr>outcome = Returns Empty_output
                           \<lparr>summary = str ''Error: Summarization process failed to produce output.'',
                            key_concepts = []\<rparr>,
                         chain_calls = [docs]\<rparr>
                      else
                        \<lparr>outcome = Returns Parsed (parse_llm_output llm_output_text),
                         chain_calls = [docs]\<rparr>
                  | PNone \<Rightarrow>
                      \<lparr>outcome = Returns Empty_output
                         \<lparr>summary = str ''Error: Summarization process failed to produce output.'',
                          key_concepts = []\<rparr>,
                       chain_calls = [docs]\<rparr>))"

text \<open>\<^verbatim>\<open>summarize\<close> as its caller sees it: the dictionary returned, or the exception.\<close>

definition summarize ::
  "(document list \<Rightarrow> raised + pydict) \<Rightarrow> (pystr \<Rightarrow> pystr list) \<Rightarrow> pydict
     \<Rightarrow> raised + summary_result" where
  "summarize chain split_text article_data =
     (case outcome (summarize_run chain split_text article_data) of
        Returns x r \<Rightarrow> Inr r
      | Raises e \<Rightarrow> Inl e)"

section \<open>Properties of the matcher\<close>

lemma marker_in_prefix: "ci_prefix w t \<Longrightarrow> marker_in w t"
  by (cases t) auto

lemma marker_in_append: "marker_in w t \<Longrightarrow> marker_in w (pre @ t)"
  by (induction pre) (auto simp: marker_in_prefix)

lemma bt_lit_ci_fails:
  "\<not> ci_prefix w (rest cur) \<Longrightarrow> bt (lit_ci w) cur g k = None"
proof (induction w arbitrary: cur g)
  case Nil
  then show ?case by simp
next
  case (Cons c cs)
  obtain p i t where cur: "cur = (p, i, t)" by (cases cur)
  show ?case
  proof (cases t)
    case Nil
    with cur show ?thesis by simp
  next
    case (Cons x xs)
    with cur Cons.prems Cons.IH [of "(Some x, Suc i, xs)"] show ?thesis by auto
  qed
qed

lemma bt_lit_ci_prefix:
  "bt (lit_ci w) cur g k = Some x \<Longrightarrow> ci_prefix w (rest cur)"
  using bt_lit_ci_fails [of w cur g k] by (cases "ci_prefix w (rest cur)") simp_all

lemma reach1I:
  "k cur' = Some x \<Longrightarrow> rest cur = pre @ rest cur' \<Longrightarrow>
   \<exists>cur'. k cur' = Some x \<and> (\<exists>pre. rest cur = pre @ rest cur')"
  by blast

lemma greedy_reaches:
  "greedy P cur k = Some x \<Longrightarrow> \<exists>cur'. k cur' = Some x \<and> (\<exists>pre. rest cur = pre @ rest cur')"
proof (induction P cur k rule: greedy.induct)
  case (1 P p i k)
  then have "k (p, i, []) = Some x" by simp
  then show ?case by (rule reach1I [where pre = "[]"]) simp
next
  case (2 P p i c cs k)
  show ?case
  proof (cases "P c \<and> greedy P (Some c, Suc i, cs) k \<noteq> None")
    case True
    with "2.prems" have "greedy P (Some c, Suc i, cs) k = Some x" by (auto split: option.splits)
    with "2.IH" True obtain cur' pre where "k cur' = Some x" "cs = pre @ rest cur'"
      by auto
    then show ?thesis by (intro reach1I [where pre = "c # pre" and cur' = cur']) simp_all
  next
    case False
    with "2.prems" have "k (p, i, c # cs) = Some x" by (auto split: if_splits option.splits)
    then show ?thesis by (rule reach1I [where pre = "[]"]) simp
  qed
qed

lemma lazy_reaches:
  "lazy P cur k = Some x \<Longrightarrow> \<exists>cur'. k cur' = Some x \<and> (\<exists>pre. rest cur = pre @ rest cur')"
proof (induction P cur k rule: lazy.induct)
  case (1 P p i k)
  then have "k (p, i, []) = Some x" by simp
  then show ?case by (rule reach1I [where pre = "[]"]) simp
next
  case (2 P p i c cs k)
  show ?case
  proof (cases "k (p, i, c # cs)")
    case (Some y)
    with "2.prems" have "k (p, i, c # cs) = Some x" by simp
    then show ?thesis by (rule reach1I [where pre = "[]"]) simp
  next
    case None
    with "2.prems" have P: "P c" and l: "lazy P (Some c, Suc i, cs) k = Some x"
      by (auto split: if_splits)
    with "2.IH" None obtain cur' pre where "k cur' = Some x" "cs = pre @ rest cur'"
      by auto
    then show ?thesis by (intro reach1I [where pre = "c # pre" and cur' = cur']) simp_all
  qed
qed

lemma reach2I:
  "k cur' g' = Some x \<Longrightarrow> rest cur = pre @ rest cur' \<Longrightarrow> (grp \<longrightarrow> g' \<noteq> None) \<Longrightarrow>
   \<exists>cur' g'. k cur' g' = Some x \<and> (\<exists>pre. rest cur = pre @ rest cur') \<and> (grp \<longrightarrow> g' \<noteq> None)"
  by blast

lemma bt_reaches:
  "bt r cur g k = Some x \<Longrightarrow>
   \<exists>cur' g'. k cur' g' = Some x \<and> (\<exists>pre. rest cur = pre @ rest cur') \<and>
     (sets_group r \<or> g \<noteq> None \<longrightarrow> g' \<noteq> None)"
proof (induction r arbitrary: cur g k)
  case Eps
  then have "k cur g = Some x" by simp
  then show ?case by (rule reach2I [where pre = "[]"]) simp_all
next
  case (Cls P)
  obtain p i t where cur: "cur = (p, i, t)" by (cases cur)
  with Cls obtain c cs where t: "t = c # cs" by (cases t) auto
  with cur Cls have "k (Some c, Suc i, cs) g = Some x" by (auto split: if_splits)
  then show ?case by (rule reach2I [where pre = "[c]"]) (simp_all add: cur t)
next
  case (Star P)
  then have "greedy P cur (\<lambda>cur'. k cur' g) = Some x" by simp
  from greedy_reaches [OF this] obtain cur' pre where
    "k cur' g = Some x" "rest cur = pre @ rest cur'" by blast
  then show ?case by (rule reach2I) simp
next
  case (LazyStar P)
  then have "lazy P cur (\<lambda>cur'. k cur' g) = Some x" by simp
  from lazy_reaches [OF this] obtain cur' pre where
    "k cur' g = Some x" "rest cur = pre @ rest cur'" by blast
  then show ?case by (rule reach2I) simp
next
  case Bol
  obtain p i t where cur: "cur = (p, i, t)" by (cases cur)
  with Bol have "k cur g = Some x" by (auto split: if_splits)
  then show ?case by (rule reach2I [where pre = "[]"]) simp_all
next
  case Eol
  obtain p i t where cur: "cur = (p, i, t)" by (cases cur)
  with Eol have "k cur g = Some x" by (cases t) (auto split: if_splits)
  then show ?case by (rule reach2I [where pre = "[]"]) simp_all
next
  case (Cat a b)
  then have "bt a cur g (\<lambda>cur' g'. bt b cur' g' k) = Some x" by simp
  from Cat.IH(1) [OF this] obtain c1 g1 pre1 where
    1: "bt b c1 g1 k = Some x" "rest cur = pre1 @ rest c1" "sets_group a \<or> g \<noteq> None \<longrightarrow> g1 \<noteq> None"
    by blast
  from Cat.IH(2) [OF 1(1)] obtain c2 g2 pre2 where
    2: "k c2 g2 = Some x" "rest c1 = pre2 @ rest c2" "sets_group b \<or> g1 \<noteq> None \<longrightarrow> g2 \<noteq> None"
    by blast
  from 2(1) show ?case
  proof (rule reach2I [where pre = "pre1 @ pre2"])
    show "rest cur = (pre1 @ pre2) @ rest c2" using 1(2) 2(2) by simp
    show "sets_group (Cat a b) \<or> g \<noteq> None \<longrightarrow> g2 \<noteq> None" using 1(3) 2(3) by auto
  qed
next
  case (Or a b)
  show ?case
  proof (cases "bt a cur g k")
    case None
    with Or.prems have "bt b cur g k = Some x" by simp
    from Or.IH(2) [OF this] obtain c' g' pre where
      "k c' g' = Some x" "rest cur = pre @ rest c'" "sets_group b \<or> g \<noteq> None \<longrightarrow> g' \<noteq> None"
      by blast
    then show ?thesis by (intro reach2I [where cur' = c' and g' = g' and pre = pre]) auto
  next
    case (Some y)
    with Or.prems have "bt a cur g k = Some x" by simp
    from Or.IH(1) [OF this] obtain c' g' pre where
      "k c' g' = Some x" "rest cur = pre @ rest c'" "sets_group a \<or> g \<noteq> None \<longrightarrow> g' \<noteq> None"
      by blast
    then show ?thesis by (intro reach2I [where cur' = c' and g' = g' and pre = pre]) auto
  qed
next
  case (Group a)
  then have "bt a cur g (\<lambda>cur' g'. k cur' (Some (pos cur, pos cur'))) = Some x" by simp
  from Group.IH [OF this] obtain c' pre where
    "k c' (Some (pos cur, pos c')) = Some x" "rest cur = pre @ rest c'"
    by blast
  then show ?case by (rule reach2I) simp
qed

lemma match_at_group:
  "match_at r cur = Some (cur', g) \<Longrightarrow> sets_group r \<Longrightarrow> g \<noteq> None"
proof -
  assume a: "match_at r cur = Some (cur', g)" and s: "sets_group r"
  from a have "bt r cur None (\<lambda>c h. Some (c, h)) = Some (cur', g)" by (simp add: match_at_def)
  from bt_reaches [OF this] s show ?thesis by auto
qed

lemma search_from_group:
  "search_from r cur = Some (cur', g) \<Longrightarrow> sets_group r \<Longrightarrow> g \<noteq> None"
proof (induction r cur rule: search_from.induct)
  case (1 r p i)
  then show ?case using match_at_group [of r "(p, i, [])" cur' g] by simp
next
  case (2 r p i c cs)
  show ?case
  proof (cases "match_at r (p, i, c # cs)")
    case None
    with 2 show ?thesis by simp
  next
    case (Some m)
    with "2.prems" have "match_at r (p, i, c # cs) = Some (cur', g)" by simp
    with "2.prems" show ?thesis by (rule_tac match_at_group)
  qed
qed

lemma match_at_marker1:
  "match_at (Cat (lit_ci w) r) cur = Some m \<Longrightarrow> ci_prefix w (rest cur)"
  by (simp add: match_at_def) (erule bt_lit_ci_prefix)

lemma match_at_marker2:
  assumes "match_at (Cat a (Cat b (lit_ci w))) cur = Some m"
  shows "marker_in w (rest cur)"
proof -
  from assms have "bt a cur None (\<lambda>c g. bt (Cat b (lit_ci w)) c g (\<lambda>cur' g. Some (cur', g))) = Some m"
    by (simp add: match_at_def)
  from bt_reaches [OF this] obtain c1 g1 pre1 where
    1: "bt (Cat b (lit_ci w)) c1 g1 (\<lambda>cur' g. Some (cur', g)) = Some m" "rest cur = pre1 @ rest c1"
    by blast
  from 1(1) have "bt b c1 g1 (\<lambda>c g. bt (lit_ci w) c g (\<lambda>cur' g. Some (cur', g))) = Some m"
    by simp
  from bt_reaches [OF this] obtain c2 g2 pre2 where
    2: "bt (lit_ci w) c2 g2 (\<lambda>cur' g. Some (cur', g)) = Some m" "rest c1 = pre2 @ rest c2"
    by blast
  from 2(1) have "ci_prefix w (rest c2)" by (rule bt_lit_ci_prefix)
  then have "marker_in w (rest c2)" by (rule marker_in_prefix)
  with 1(2) 2(2) show ?thesis by (simp add: marker_in_append)
qed

lemma search_from_marker:
  assumes step: "\<And>cur m. match_at r cur = Some m \<Longrightarrow> marker_in w (rest cur)"
  shows "search_from r (p, i, t) = Some m \<Longrightarrow> marker_in w t"
proof (induction t arbitrary: p i)
  case Nil
  then show ?case using step [of "(p, i, [])" m] by simp
next
  case (Cons c cs)
  show ?case
  proof (cases "match_at r (p, i, c # cs)")
    case None
    with Cons have "marker_in w cs" by simp
    then show ?thesis by simp
  next
    case (Some m')
    from step [OF this] show ?thesis by simp
  qed
qed

section \<open>Properties of the output parser\<close>

lemma summary_search_markers:
  assumes "re_search summary_re raw = Some m"
  shows "marker_in (str ''FINAL SUMMARY:'') raw \<and> marker_in (str ''KEY CONCEPTS:'') raw"
proof
  from assms show "marker_in (str ''FINAL SUMMARY:'') raw"
    unfolding re_search_def summary_re_def
    by (rule search_from_marker [rotated]) (auto dest: match_at_marker1 marker_in_prefix)
  from assms show "marker_in (str ''KEY CONCEPTS:'') raw"
    unfolding re_search_def summary_re_def
    by (rule search_from_marker [rotated]) (erule match_at_marker2)
qed

lemma concepts_search_marker:
  assumes "re_search concepts_re raw = Some m"
  shows "marker_in (str ''KEY CONCEPTS:'') raw"
  using assms unfolding re_search_def concepts_re_def
  by (rule search_from_marker [rotated]) (auto dest: match_at_marker1 marker_in_prefix)

lemma summary_search_group:
  assumes a: "re_search summary_re raw = Some m"
  shows "\<exists>t. group1 raw m = Some t"
proof -
  obtain c g where m: "m = (c, g)" by (cases m)
  have "sets_group summary_re" by (simp add: summary_re_def)
  with a m have "g \<noteq> None" unfolding re_search_def by (auto dest: search_from_group)
  with m show ?thesis by (cases g) auto
qed

lemma concepts_search_group:
  assumes a: "re_search concepts_re raw = Some m"
  shows "\<exists>t. group1 raw m = Some t"
proof -
  obtain c g where m: "m = (c, g)" by (cases m)
  have "sets_group concepts_re" by (simp add: concepts_re_def)
  with a m have "g \<noteq> None" unfolding re_search_def by (auto dest: search_from_group)
  with m show ?thesis by (cases g) auto
qed

lemma parse_try_no_exception: "\<exists>r. parse_try raw = Inr r"
proof (cases "re_search summary_re raw")
  case None
  then show ?thesis by (simp add: parse_try_def)
next
  case sm: (Some m1)
  show ?thesis
  proof (cases "re_search concepts_re raw")
    case None
    with sm show ?thesis by (simp add: parse_try_def)
  next
    case (Some m2)
    from summary_search_group [OF sm] obtain g where "group1 raw m1 = Some g" by blast
    moreover from concepts_search_group [OF Some] obtain h where "group1 raw m2 = Some h" by blast
    ultimately show ?thesis using sm Some by (simp add: parse_try_def Let_def)
  qed
qed

text \<open>
  Claim C1. When the marker \<^verbatim>\<open>FINAL SUMMARY:\<close> or the marker \<^verbatim>\<open>KEY CONCEPTS:\<close> does
  not occur in the raw text (letter case ignored), the parser returns the raw text
  unchanged as the summary and no key concepts. The parser returns for every string: no
  step of the \<^verbatim>\<open>try\<close> block raises, and the \<^verbatim>\<open>except\<close> branch returns the same
  fallback for whatever exception reaches it.
\<close>

theorem parse_fallback:
  "(\<not> marker_in (str ''FINAL SUMMARY:'') raw \<or> \<not> marker_in (str ''KEY CONCEPTS:'') raw \<longrightarrow>
      parse_llm_output raw = \<lparr>summary = raw, key_concepts = []\<rparr>) \<and>
   (\<exists>r. parse_try raw = Inr r) \<and>
   (\<forall>e. parse_except raw e = \<lparr>summary = raw, key_concepts = []\<rparr>)"
proof (intro conjI impI allI)
  assume miss: "\<not> marker_in (str ''FINAL SUMMARY:'') raw \<or> \<not> marker_in (str ''KEY CONCEPTS:'') raw"
  have "re_search summary_re raw = None"
  proof (cases "re_search summary_re raw")
    case (Some m)
    from summary_search_markers [OF this] miss show ?thesis by blast
  qed simp
  then show "parse_llm_output raw = \<lparr>summary = raw, key_concepts = []\<rparr>"
    by (simp add: parse_llm_output_def parse_try_def)
next
  show "\<exists>r. parse_try raw = Inr r" by (rule parse_try_no_exception)
next
  fix e show "parse_except raw e = \<lparr>summary = raw, key_concepts = []\<rparr>"
    by (simp add: parse_except_def)
qed

text \<open>The fallback on the text of the specification's example.\<close>

theorem parse_fallback_witness:
  "\<not> marker_in (str ''FINAL SUMMARY:'') (str ''just some text'') \<and>
   parse_llm_output (str ''just some text'') =
     \<lparr>summary = str ''just some text'', key_concepts = []\<rparr>"
proof -
  have h: "\<not> marker_in (str ''FINAL SUMMARY:'') (str ''just some text'')"
    by (simp add: str_def ignorecase_def lower_ascii_def)
  with parse_fallback [of "str ''just some text''"] show ?thesis by blast
qed

text \<open>The definitions that evaluate the parser on a given text.\<close>

lemmas parse_eval = re_search_def re_findall_def summary_re_def concepts_re_def concept_line_re_def
  str_def match_at_def ignorecase_def lower_ascii_def parse_llm_output_def parse_try_def
  parse_except_def strip_def isspace_def bullet_def isdigit_def digit_blocks_def plus_def Let_def

text \<open>
  Claim C2. On the well-formed text of the specification the parser returns the summary
  \<^verbatim>\<open>Alpha beta.\<close> and the key concepts \<^verbatim>\<open>one\<close> and \<^verbatim>\<open>two\<close>.
\<close>

theorem parse_well_formed_example:
  "parse_llm_output
     (str ''FINAL SUMMARY:\<newline>Alpha beta.\<newline>KEY CONCEPTS:\<newline>- one\<newline>- two\<newline>'') =
   \<lparr>summary = str ''Alpha beta.'', key_concepts = [str ''one'', str ''two'']\<rparr>"
  by (simp add: parse_eval)

text \<open>
  Claim C9. The claim says that the key concepts are exactly the bulleted or numbered
  lines after the marker. On the text below, which holds both markers, the line after the
  marker is a bullet with nothing behind it and the next line, \<^verbatim>\<open>foo\<close>, has no bullet: the
  specification gives no concept, the parser gives \<^verbatim>\<open>foo\<close>. The \<^verbatim>\<open>\s*\<close> behind the
  bullet of the concept pattern also matches the newline, so the group takes the next
  line.
\<close>

theorem empty_bullet_takes_next_line:
  "marker_in (str ''FINAL SUMMARY:'') (str ''FINAL SUMMARY:\<newline>S\<newline>KEY CONCEPTS:\<newline>-\<newline>foo'') \<and>
   marker_in (str ''KEY CONCEPTS:'') (str ''FINAL SUMMARY:\<newline>S\<newline>KEY CONCEPTS:\<newline>-\<newline>foo'') \<and>
   key_concepts (parse_llm_output (str ''FINAL SUMMARY:\<newline>S\<newline>KEY CONCEPTS:\<newline>-\<newline>foo'')) =
     [str ''foo''] \<and>
   spec_key_concepts (str ''FINAL SUMMARY:\<newline>S\<newline>KEY CONCEPTS:\<newline>-\<newline>foo'') = []"
  by (simp add: parse_eval spec_key_concepts_def after_line_marker_def List.map_filter_simps)

section \<open>The prepared text\<close>

lemma get_simps:
  "get [] k = PNone"
  "get ((k', v) # d) k = (if k' = k then v else get d k)"
  by (simp_all add: get_def)

text \<open>
  Claim C7, as stated, fails: the prepared text of a document with a title and an
  abstract holds the labels \<^verbatim>\<open>Title:\<close> and \<^verbatim>\<open>Abstract:\<close>, which are not content of
  the fields.
\<close>

theorem prepared_text_has_labels:
  "prepare_input_text [(''title'', PStr (str ''T'')), (''abstract'', PStr (str ''A''))] =
     str ''Title: T\<newline>\<newline>Abstract: A'' \<and>
   spec_prepared_text [(''title'', PStr (str ''T'')), (''abstract'', PStr (str ''A''))] =
     str ''T\<newline>\<newline>A'' \<and>
   prepare_input_text [(''title'', PStr (str ''T'')), (''abstract'', PStr (str ''A''))] \<noteq>
     spec_prepared_text [(''title'', PStr (str ''T'')), (''abstract'', PStr (str ''A''))]"
  by (simp add: prepare_input_text_def spec_prepared_text_def get_simps str_def Let_def)

text \<open>
  Claim C7, amended. The prepared text is the concatenation of exactly the present
  (non-empty) fields among title, abstract and full text, in that order, each behind its
  fixed label (\<^verbatim>\<open>Title: \<close>, \<^verbatim>\<open>Abstract: \<close>, \<^verbatim>\<open>Full Text:\<close> and a newline), separated
  by a double newline, with nothing else added.
\<close>

theorem prepared_text_labelled:
  "prepare_input_text article_data =
     join (str ''\<newline>\<newline>'')
       (map (\<lambda>(label, key). label @ format (get article_data key))
          (filter (\<lambda>(label, key). truthy (get article_data key)) labelled_fields))"
  by (simp add: prepare_input_text_def labelled_fields_def Let_def)

section \<open>Properties of the pipeline\<close>

lemma strip_Nil_iff: "strip s = [] \<longleftrightarrow> (\<forall>c \<in> set s. isspace c)"
proof
  assume "strip s = []"
  then have "dropWhile isspace (rev (dropWhile isspace s)) = []" by (simp add: strip_def)
  then have all: "\<forall>c \<in> set (dropWhile isspace s). isspace c"
    by (simp add: dropWhile_eq_Nil_conv)
  have "dropWhile isspace s = []"
  proof (cases "dropWhile isspace s")
    case (Cons x xs)
    then have "\<not> isspace x" using hd_dropWhile [of isspace s] by simp
    with all Cons show ?thesis by simp
  qed simp
  then show "\<forall>c \<in> set s. isspace c" by (simp add: dropWhile_eq_Nil_conv)
next
  assume "\<forall>c \<in> set s. isspace c"
  then have "dropWhile isspace s = []" by (simp add: dropWhile_eq_Nil_conv)
  then show "strip s = []" by (simp only: strip_def rev.simps dropWhile.simps)
qed

lemma abstract_in_prepared_text:
  assumes "truthy (get article_data ''abstract'')"
  shows "65 \<in> set (prepare_input_text article_data)"
  using assms by (simp add: prepare_input_text_def Let_def str_def)

lemma prepared_text_not_blank:
  assumes "truthy (get article_data ''abstract'')"
  shows "strip (prepare_input_text article_data) \<noteq> []"
proof -
  have "\<not> isspace 65" by (simp add: isspace_def)
  with abstract_in_prepared_text [OF assms] show ?thesis
    unfolding strip_Nil_iff by blast
qed

lemma truthy_get_nonempty: "truthy (get article_data k) \<Longrightarrow> article_data \<noteq> []"
  by (auto simp: get_simps)

text \<open>
  Claim C3. When the article data is empty, or its abstract is absent, \<^verbatim>\<open>None\<close> or the
  empty string, \<^verbatim>\<open>summarize\<close> returns the insufficient-data error as a value and the
  chain is not called.
\<close>

theorem insufficient_data_no_chain_call:
  assumes "article_data = [] \<or> map_of article_data ''abstract'' = None \<or>
           map_of article_data ''abstract'' = Some PNone \<or>
           map_of article_data ''abstract'' = Some (PStr [])"
  shows "summarize_run chain split_text article_data =
           \<lparr>outcome = Returns Insufficient_data
              \<lparr>summary = str ''Error: Insufficient article data provided for summarization.'',
               key_concepts = []\<rparr>,
            chain_calls = []\<rparr>"
proof -
  from assms have "article_data = [] \<or> \<not> truthy (get article_data ''abstract'')"
    by (auto simp: get_def)
  then show ?thesis by (simp add: summarize_run_def)
qed

text \<open>
  The document of the specification's example, with the empty abstract.
\<close>

theorem insufficient_data_witness:
  "map_of [(''abstract'', PStr [])] ''abstract'' = Some (PStr []) \<and>
   summarize_run (\<lambda>docs. Inr [(''output_text'', PStr (str ''unused''))]) (\<lambda>t. [t])
       [(''abstract'', PStr [])] =
     \<lparr>outcome = Returns Insufficient_data
        \<lparr>summary = str ''Error: Insufficient article data provided for summarization.'',
         key_concepts = []\<rparr>,
      chain_calls = []\<rparr>"
proof -
  have h: "map_of [(''abstract'', PStr [])] ''abstract'' = Some (PStr [])" by simp
  then have "[(''abstract'', PStr [])] = [] \<or> map_of [(''abstract'', PStr [])] ''abstract'' = None \<or>
           map_of [(''abstract'', PStr [])] ''abstract'' = Some PNone \<or>
           map_of [(''abstract'', PStr [])] ''abstract'' = Some (PStr [])" by simp
  from insufficient_data_no_chain_call [OF this] h show ?thesis by simp
qed

text \<open>
  Claim C8, as stated, fails for some exceptions: \<^verbatim>\<open>except Exception\<close> does not catch an
  exception that is no instance of \<^verbatim>\<open>Exception\<close>, so a \<^verbatim>\<open>KeyboardInterrupt\<close> raised
  by the chain reaches the caller of \<^verbatim>\<open>summarize\<close>; and so does what \<^verbatim>\<open>str(e)\<close>
  raises while the handler builds its log message.
\<close>

theorem chain_exception_may_propagate:
  "summarize (\<lambda>docs. Inl (Passes (str ''KeyboardInterrupt''))) (\<lambda>t. [t])
       [(''abstract'', PStr (str ''a''))] =
     Inl (Passes (str ''KeyboardInterrupt'')) \<and>
   summarize (\<lambda>docs. Inl (Caught (Exn (str ''Bad'')) (Some (Caught (Exn (str ''ValueError'')) None))))
       (\<lambda>t. [t]) [(''abstract'', PStr (str ''a''))] =
     Inl (Caught (Exn (str ''ValueError'')) None)"
  by (simp add: summarize_def summarize_run_def get_simps prepare_input_text_def str_def strip_def
      isspace_def Let_def)

text \<open>
  Claim C8, amended. When the abstract is present, so that the chain is called, the call
  of the chain decides how \<^verbatim>\<open>summarize\<close> ends. If it returns an empty output (no
  \<^verbatim>\<open>output_text\<close>, \<^verbatim>\<open>None\<close> or the empty string), \<^verbatim>\<open>summarize\<close> returns the
  no-output error with no key concepts. If it raises an instance of \<^verbatim>\<open>Exception\<close> whose
  \<^verbatim>\<open>str\<close> returns, \<^verbatim>\<open>summarize\<close> returns the internal-error message, which names the
  class of the exception, with no key concepts. The returned dictionary has no field
  besides the summary and the key concepts: the kind of failure is told by the message
  only. If the chain raises an exception that is no instance of \<^verbatim>\<open>Exception\<close>, or one
  whose \<^verbatim>\<open>str\<close> raises, an exception reaches the caller.
\<close>

theorem chain_failure_is_returned:
  assumes abstract: "truthy (get article_data ''abstract'')"
    and docs: "docs = map (\<lambda>t. \<lparr>page_content = t\<rparr>) (split_text (prepare_input_text article_data))"
  shows "(chain docs = Inl (Caught e None) \<longrightarrow>
            summarize chain split_text article_data =
              Inr \<lparr>summary = str ''Error: Summarization failed due to an internal error (''
                             @ type_name e @ str '').'',
                   key_concepts = []\<rparr>) \<and>
         (chain docs = Inr result \<and> \<not> truthy (get_default result ''output_text'' (PStr [])) \<longrightarrow>
            summarize chain split_text article_data =
              Inr \<lparr>summary = str ''Error: Summarization process failed to produce output.'',
                   key_concepts = []\<rparr>) \<and>
         (chain docs = Inl (Passes n) \<longrightarrow>
            summarize chain split_text article_data = Inl (Passes n)) \<and>
         (chain docs = Inl (Caught e (Some e')) \<longrightarrow>
            summarize chain split_text article_data = Inl e') \<and>
         chain_calls (summarize_run chain split_text article_data) = [docs]"
proof -
  from abstract have ne: "article_data \<noteq> []" by (rule truthy_get_nonempty)
  from abstract have nb: "strip (prepare_input_text article_data) \<noteq> []"
    by (rule prepared_text_not_blank)
  show ?thesis
  proof (intro conjI impI)
    assume "chain docs = Inl (Caught e None)"
    with abstract ne nb docs show "summarize chain split_text article_data =
              Inr \<lparr>summary = str ''Error: Summarization failed due to an internal error (''
                             @ type_name e @ str '').'',
                   key_concepts = []\<rparr>"
      by (simp add: summarize_def summarize_run_def Let_def)
  next
    assume a: "chain docs = Inr result \<and> \<not> truthy (get_default result ''output_text'' (PStr []))"
    show "summarize chain split_text article_data =
              Inr \<lparr>summary = str ''Error: Summarization process failed to produce output.'',
                   key_concepts = []\<rparr>"
    proof (cases "get_default result ''output_text'' (PStr [])")
      case PNone
      with a abstract ne nb docs show ?thesis
        by (simp add: summarize_def summarize_run_def Let_def)
    next
      case (PStr t)
      with a have "t = []" by simp
      with PStr a abstract ne nb docs show ?thesis
        by (simp add: summarize_def summarize_run_def Let_def)
    qed
  next
    assume "chain docs = Inl (Passes n)"
    with abstract ne nb docs show "summarize chain split_text article_data = Inl (Passes n)"
      by (simp add: summarize_def summarize_run_def Let_def)
  next
    assume "chain docs = Inl (Caught e (Some e'))"
    with abstract ne nb docs show "summarize chain split_text article_data = Inl e'"
      by (simp add: summarize_def summarize_run_def Let_def)
  next
    from abstract ne nb docs show "chain_calls (summarize_run chain split_text article_data) = [docs]"
      by (simp add: summarize_run_def Let_def
          split: sum.splits raised.splits option.splits pyval.splits)
  qed
qed

text \<open>
  A chain that raises an exception that is caught and a chain that returns the empty
  output.
\<close>

theorem chain_failure_witness:
  "truthy (get [(''abstract'', PStr (str ''a''))] ''abstract'') \<and>
   summarize (\<lambda>docs. Inl (Caught (Exn (str ''TimeoutError'')) None)) (\<lambda>t. [t])
       [(''abstract'', PStr (str ''a''))] =
     Inr \<lparr>summary = str ''Error: Summarization failed due to an internal error (TimeoutError).'',
          key_concepts = []\<rparr> \<and>
   summarize (\<lambda>docs. Inr [(''output_text'', PStr [])]) (\<lambda>t. [t]) [(''abstract'', PStr (str ''a''))] =
     Inr \<lparr>summary = str ''Error: Summarization process failed to produce output.'',
          key_concepts = []\<rparr>"
proof -
  let ?a = "[(''abstract'', PStr (str ''a''))]"
  have h: "truthy (get ?a ''abstract'')" by (simp add: get_simps str_def)
  have 1: "summarize (\<lambda>docs. Inl (Caught (Exn (str ''TimeoutError'')) None)) (\<lambda>t. [t]) ?a =
     Inr \<lparr>summary = str ''Error: Summarization failed due to an internal error (TimeoutError).'',
          key_concepts = []\<rparr>"
    using chain_failure_is_returned [OF h refl,
        of "\<lambda>docs. Inl (Caught (Exn (str ''TimeoutError'')) None)" "\<lambda>t. [t]"
        "Exn (str ''TimeoutError'')"]
    by (simp add: str_def)
  have 2: "summarize (\<lambda>docs. Inr [(''output_text'', PStr [])]) (\<lambda>t. [t]) ?a =
     Inr \<lparr>summary = str ''Error: Summarization process failed to produce output.'',
          key_concepts = []\<rparr>"
    using chain_failure_is_returned [OF h refl, of "\<lambda>docs. Inr [(''output_text'', PStr [])]" "\<lambda>t. [t]"
        _ "[(''output_text'', PStr [])]"]
    by (simp add: get_default_def)
  from h 1 2 show ?thesis by simp
qed

text \<open>
  Claim C10, as stated, fails in its last part: a successful run returns the parsed
  model output, which may itself begin with \<^verbatim>\<open>Error:\<close> and hold no key concepts, so the
  prefix does not tell failure from success.
\<close>

theorem parsed_result_may_start_with_Error:
  "outcome (summarize_run (\<lambda>docs. Inr [(''output_text'', PStr (str ''Error: x''))]) (\<lambda>t. [t])
           [(''abstract'', PStr (str ''a''))]) =
     Returns Parsed \<lparr>summary = str ''Error: x'', key_concepts = []\<rparr> \<and>
   summarize (\<lambda>docs. Inr [(''output_text'', PStr (str ''Error: x''))]) (\<lambda>t. [t])
           [(''abstract'', PStr (str ''a''))] =
     Inr \<lparr>summary = str ''Error: x'', key_concepts = []\<rparr> \<and>
   take 6 (str ''Error: x'') = str ''Error:''"
  by (simp add: summarize_def summarize_run_def get_simps get_default_def prepare_input_text_def
      re_search_def summary_re_def concepts_re_def str_def match_at_def ignorecase_def
      lower_ascii_def parse_llm_output_def parse_try_def strip_def isspace_def Let_def)

text \<open>
  Claim C10, amended. Every value \<^verbatim>\<open>summarize\<close> returns is a record of a summary string
  and a list of key concepts (its type); on every failure path, that is at every
  \<^verbatim>\<open>return\<close> statement but the one that returns the parsed output, the summary begins
  with \<^verbatim>\<open>Error:\<close> and there are no key concepts. A successful result is not promised to
  lack the prefix.
\<close>

theorem failure_has_Error_prefix:
  "outcome (summarize_run chain split_text article_data) = Returns x r \<and> x \<noteq> Parsed \<longrightarrow>
     summarize chain split_text article_data = Inr r \<and>
     take 6 (summary r) = str ''Error:'' \<and> key_concepts r = []"
  by (auto simp add: summarize_def summarize_run_def Let_def str_def
      split: sum.splits raised.splits option.splits pyval.splits if_splits)

text \<open>
  A failing run: the chain raises.
\<close>

theorem failure_has_Error_prefix_witness:
  "outcome (summarize_run (\<lambda>docs. Inl (Caught (Exn (str ''TimeoutError'')) None)) (\<lambda>t. [t])
           [(''abstract'', PStr (str ''a''))]) =
     Returns Chain_exception
       \<lparr>summary = str ''Error: Summarization failed due to an internal error (TimeoutError).'',
        key_concepts = []\<rparr> \<and>
   Chain_exception \<noteq> Parsed \<and>
   summarize (\<lambda>docs. Inl (Caught (Exn (str ''TimeoutError'')) None)) (\<lambda>t. [t])
           [(''abstract'', PStr (str ''a''))] =
     Inr \<lparr>summary = str ''Error: Summarization failed due to an internal error (TimeoutError).'',
          key_concepts = []\<rparr> \<and>
   take 6 (str ''Error: Summarization failed due to an internal error (TimeoutError).'') =
     str ''Error:''"
proof -
  have h: "outcome (summarize_run (\<lambda>docs. Inl (Caught (Exn (str ''TimeoutError'')) None)) (\<lambda>t. [t])
           [(''abstract'', PStr (str ''a''))]) =
     Returns Chain_exception
       \<lparr>summary = str ''Error: Summarization failed due to an internal error (TimeoutError).'',
        key_concepts = []\<rparr>"
    by (simp add: summarize_run_def get_simps prepare_input_text_def str_def strip_def
        isspace_def Let_def)
  with failure_has_Error_prefix [of "\<lambda>docs. Inl (Caught (Exn (str ''TimeoutError'')) None)" "\<lambda>t. [t]"
      "[(''abstract'', PStr (str ''a''))]" Chain_exception
      "\<lparr>summary = str ''Error: Summarization failed due to an internal error (TimeoutError).'',
        key_concepts = []\<rparr>"]
  show ?thesis by simp
qed

end
